theory Spec2Isabelle
  imports Main "HOL-Library.List_Lexorder"
begin

section \<open>The discussion topic menu view\<close>

text \<open>
  A shallow embedding of \<^verbatim>\<open>DiscussionTopicMenuView\<close>
  (\<^verbatim>\<open>common/static/common/js/discussion/views/discussion_topic_menu_view.js\<close>).
  The view renders a tree of discussion categories as a nested menu, remembers the
  chosen topic and notifies its listeners when the choice changes.
\<close>

subsection \<open>JavaScript values and exceptions\<close>

text \<open>
  The values a discussion id can take once jQuery's \<^verbatim>\<open>.data()\<close> has read it:
  \<^verbatim>\<open>undefined\<close> when the attribute is missing, otherwise the attribute's string or
  what jQuery converts it to. A number is held as the string that JavaScript prints for
  it (\<^verbatim>\<open>0\<close>, \<^verbatim>\<open>-12\<close>, \<^verbatim>\<open>1.5\<close>, \<^verbatim>\<open>1e+21\<close>, \<^verbatim>\<open>NaN\<close>): the view does
  nothing with a number but test it and paste it into a string, and both depend on
  nothing else. The objects that jQuery parses out of an attribute written as JSON are
  not represented.
\<close>

datatype jsval = JUndefined | JNull | JBool bool | JNumber string | JString string

text \<open>
  The test of \<^verbatim>\<open>if (v)\<close>. The numbers that fail it are zero, printed
  \<^verbatim>\<open>0\<close> whatever its sign, and \<^verbatim>\<open>NaN\<close>.
\<close>

fun truthy :: "jsval \<Rightarrow> bool" where
  "truthy JUndefined = False"
| "truthy JNull = False"
| "truthy (JBool b) = b"
| "truthy (JNumber n) = (n \<noteq> ''0'' \<and> n \<noteq> ''NaN'')"
| "truthy (JString s) = (s \<noteq> [])"

text \<open>
  \<^verbatim>\<open>TypeError\<close>: a property of \<^verbatim>\<open>undefined\<close> is read.
  \<^verbatim>\<open>SelectorError\<close>: the selector engine rejects the selector built from the topic
  id (see \<open>render_target\<close>).
\<close>

datatype error = TypeError | SelectorError

subsection \<open>The category map\<close>

text \<open>
  \<^verbatim>\<open>map.children\<close> is an array of names, \<^verbatim>\<open>map.entries\<close> and
  \<^verbatim>\<open>map.subcategories\<close> are objects keyed by name; the objects are association
  lists read with \<^const>\<open>map_of\<close>. The names that every JavaScript object inherits
  (such as \<^verbatim>\<open>toString\<close>) are taken not to occur as child names.
\<close>

record entry =
  entry_id :: string
  is_cohorted :: bool

datatype category_map =
  CategoryMap (children: "string list")
              (entries: "(string \<times> entry) list")
              (subcategories: "(string \<times> category_map) list")

text \<open>
  The three Underscore templates are markup kept outside this file; they are parameters.
  \<open>entryTemplate text id is_cohorted\<close>, \<open>categoryTemplate text entries\<close>, and
  \<open>topicTemplate attributes topics_html\<close> for the whole field.
\<close>

record 'a templates =
  entryTemplate :: "string \<Rightarrow> string \<Rightarrow> bool \<Rightarrow> string"
  categoryTemplate :: "string \<Rightarrow> string \<Rightarrow> string"
  topicTemplate :: "'a \<Rightarrow> string \<Rightarrow> string"

text \<open>\<^verbatim>\<open>_.map(list, f)\<close> where \<open>f\<close> may throw: the first exception ends the loop.\<close>

fun map_result :: "('a \<Rightarrow> error + 'b) \<Rightarrow> 'a list \<Rightarrow> error + 'b list" where
  "map_result f [] = Inr []"
| "map_result f (x # xs) =
     (case f x of
        Inl e \<Rightarrow> Inl e
      | Inr y \<Rightarrow> (case map_result f xs of Inl e \<Rightarrow> Inl e | Inr ys \<Rightarrow> Inr (y # ys)))"

lemma map_result_agree:
  "(\<And>x. x \<in> set xs \<Longrightarrow> f x = g x) \<Longrightarrow> map_result f xs = map_result g xs"
  by (induction xs) (simp_all split: sum.splits)

lemma map_result_cong [fundef_cong]:
  "xs = ys \<Longrightarrow> (\<And>x. x \<in> set ys \<Longrightarrow> f x = g x) \<Longrightarrow> map_result f xs = map_result g ys"
  using map_result_agree by blast

lemma size_map_of_subcategory:
  "map_of subs name = Some sub \<Longrightarrow> size sub < Suc (size_list (size_prod (\<lambda>_. 0) size) subs)"
  by (induction subs) (auto split: if_splits)

text \<open>
  \<^verbatim>\<open>renderCategoryMap\<close>, lines 38-60. \<^verbatim>\<open>_.has(map.entries, name)\<close> is the
  lookup in \<open>entries\<close>; \<^verbatim>\<open>map.subcategories[name]\<close> of a missing name is
  \<^verbatim>\<open>undefined\<close>, and the recursive call then throws on \<^verbatim>\<open>map.children\<close>.
  \<^verbatim>\<open>.join('')\<close> is \<^const>\<open>concat\<close>.
\<close>

function renderCategoryMap :: "'a templates \<Rightarrow> category_map \<Rightarrow> error + string" where
  "renderCategoryMap T m =
     (case map_result
             (\<lambda>name.
                case map_of (entries m) name of
                  Some entry \<Rightarrow>
                    Inr (entryTemplate T name (entry_id entry) (is_cohorted entry))
                | None \<Rightarrow>
                    (case map_of (subcategories m) name of
                       None \<Rightarrow> Inl TypeError
                     | Some sub \<Rightarrow>
                         (case renderCategoryMap T sub of
                            Inl e \<Rightarrow> Inl e
                          | Inr inner \<Rightarrow> Inr (categoryTemplate T name inner))))
             (children m) of
        Inl e \<Rightarrow> Inl e
      | Inr htmls \<Rightarrow> Inr (concat htmls))"
  by pat_completeness auto
termination
proof (relation "measure (\<lambda>(T, m). size m)")
  show "wf (measure (\<lambda>(T :: 'a templates, m). size m))" by simp
next
  fix T :: "'a templates" and m name sub
  assume "map_of (subcategories m) name = Some sub"
  then show "((T, sub), (T, m)) \<in> measure (\<lambda>(T, m). size m)"
    using size_map_of_subcategory [of "subcategories m" name sub]
    by (cases m) simp
qed

declare renderCategoryMap.simps [simp del]

text \<open>The body of the loop, for one child name (lines 43-58).\<close>

definition renderChild :: "'a templates \<Rightarrow> category_map \<Rightarrow> string \<Rightarrow> error + string" where
  "renderChild T m name =
     (case map_of (entries m) name of
        Some entry \<Rightarrow> Inr (entryTemplate T name (entry_id entry) (is_cohorted entry))
      | None \<Rightarrow>
          (case map_of (subcategories m) name of
             None \<Rightarrow> Inl TypeError
           | Some sub \<Rightarrow>
               (case renderCategoryMap T sub of
                  Inl e \<Rightarrow> Inl e
                | Inr inner \<Rightarrow> Inr (categoryTemplate T name inner))))"

text \<open>
  A category map is well formed when every child name that is not an entry names a
  subcategory, which is well formed in turn.
\<close>

function well_formed :: "category_map \<Rightarrow> bool" where
  "well_formed m =
     list_all
       (\<lambda>name.
          case map_of (entries m) name of
            Some entry \<Rightarrow> True
          | None \<Rightarrow>
              (case map_of (subcategories m) name of
                 None \<Rightarrow> False
               | Some sub \<Rightarrow> well_formed sub))
       (children m)"
  by pat_completeness auto
termination
proof (relation "measure size")
  show "wf (measure (size :: category_map \<Rightarrow> nat))" by simp
next
  fix m name sub
  assume "map_of (subcategories m) name = Some sub"
  then show "(sub, m) \<in> measure size"
    using size_map_of_subcategory [of "subcategories m" name sub]
    by (cases m) simp
qed

declare well_formed.simps [simp del]

text \<open>
  The rendering as the specification words it: one fragment per child name, in the order
  of \<open>children\<close>; an entry fragment for a leaf entry, otherwise a category fragment
  around the rendering of the subcategory of that name.
\<close>

function spec_renderCategoryMap :: "'a templates \<Rightarrow> category_map \<Rightarrow> string" where
  "spec_renderCategoryMap T m =
     concat
       (map
          (\<lambda>name.
             case map_of (entries m) name of
               Some entry \<Rightarrow> entryTemplate T name (entry_id entry) (is_cohorted entry)
             | None \<Rightarrow>
                 (case map_of (subcategories m) name of
                    None \<Rightarrow> []
                  | Some sub \<Rightarrow> categoryTemplate T name (spec_renderCategoryMap T sub)))
          (children m))"
  by pat_completeness auto
termination
proof (relation "measure (\<lambda>(T, m). size m)")
  show "wf (measure (\<lambda>(T :: 'a templates, m). size m))" by simp
next
  fix T :: "'a templates" and m name sub
  assume "map_of (subcategories m) name = Some sub"
  then show "((T, sub), (T, m)) \<in> measure (\<lambda>(T, m). size m)"
    using size_map_of_subcategory [of "subcategories m" name sub]
    by (cases m) simp
qed

declare spec_renderCategoryMap.simps [simp del]

subsection \<open>The category map as an object graph\<close>

text \<open>
  In the running program a category map is an object and \<open>subcategories\<close> holds
  references, so nothing in the language keeps a map from reaching itself. Here the
  objects live in a store and the recursion counts its depth: \<open>None\<close> is the call
  that has not returned within \<open>k\<close> nested calls.
\<close>

type_synonym addr = nat

record category_obj =
  obj_children :: "string list"
  obj_entries :: "(string \<times> entry) list"
  obj_subcategories :: "(string \<times> addr) list"

type_synonym store = "addr \<Rightarrow> category_obj"

fun map_steps :: "('a \<Rightarrow> (error + 'b) option) \<Rightarrow> 'a list \<Rightarrow> (error + 'b list) option" where
  "map_steps f [] = Some (Inr [])"
| "map_steps f (x # xs) =
     (case f x of
        None \<Rightarrow> None
      | Some (Inl e) \<Rightarrow> Some (Inl e)
      | Some (Inr y) \<Rightarrow>
          (case map_steps f xs of
             None \<Rightarrow> None
           | Some (Inl e) \<Rightarrow> Some (Inl e)
           | Some (Inr ys) \<Rightarrow> Some (Inr (y # ys))))"

fun renderCategoryMap_ref ::
  "nat \<Rightarrow> 'a templates \<Rightarrow> store \<Rightarrow> addr \<Rightarrow> (error + string) option" where
  "renderCategoryMap_ref 0 T h a = None"
| "renderCategoryMap_ref (Suc k) T h a =
     (case map_steps
             (\<lambda>name.
                case map_of (obj_entries (h a)) name of
                  Some entry \<Rightarrow>
                    Some (Inr (entryTemplate T name (entry_id entry) (is_cohorted entry)))
                | None \<Rightarrow>
                    (case map_of (obj_subcategories (h a)) name of
                       None \<Rightarrow> Some (Inl TypeError)
                     | Some a' \<Rightarrow>
                         (case renderCategoryMap_ref k T h a' of
                            None \<Rightarrow> None
                          | Some (Inl e) \<Rightarrow> Some (Inl e)
                          | Some (Inr inner) \<Rightarrow> Some (Inr (categoryTemplate T name inner)))))
             (obj_children (h a)) of
        None \<Rightarrow> None
      | Some (Inl e) \<Rightarrow> Some (Inl e)
      | Some (Inr htmls) \<Rightarrow> Some (Inr (concat htmls)))"

text \<open>
  \<open>chains_bounded n h a\<close>: every chain of subcategories that starts at the object
  \<open>a\<close> has fewer than \<open>n\<close> objects, so below \<open>a\<close> the store is a finite tree.
\<close>

fun chains_bounded :: "nat \<Rightarrow> store \<Rightarrow> addr \<Rightarrow> bool" where
  "chains_bounded 0 h a = False"
| "chains_bounded (Suc n) h a =
     list_all (\<lambda>(name, a'). chains_bounded n h a') (obj_subcategories (h a))"

text \<open>The object at \<open>a\<close> and what it reaches are the tree \<open>m\<close>.\<close>

inductive represents :: "store \<Rightarrow> addr \<Rightarrow> category_map \<Rightarrow> bool" where
  "obj_children (h a) = ch \<Longrightarrow> obj_entries (h a) = es \<Longrightarrow>
   list_all2 (\<lambda>ref sub. fst ref = fst sub \<and> represents h (snd ref) (snd sub))
     (obj_subcategories (h a)) subs \<Longrightarrow>
   represents h a (CategoryMap ch es subs)"

text \<open>A map that is its own subcategory \<open>loop\<close>.\<close>

definition loop_store :: store where
  "loop_store = (\<lambda>a. \<lparr>obj_children = [''loop''], obj_entries = [],
                        obj_subcategories = [(''loop'', 0)]\<rparr>)"

subsection \<open>The page and the jQuery operations the view uses\<close>

text \<open>
  An element of the page with what the view reads from it: its tag name (lower case), its
  attributes, whether it is a selected option, the markup of its content as
  \<^verbatim>\<open>.html()\<close> reports it, and its child elements. An element is named by its
  location, the child indices on the way from the root of the page; a jQuery object is
  the list of the locations it matches.
\<close>

datatype element =
  Element (tagName: string)
          (attributes: "(string \<times> string) list")
          (selected: bool)
          (innerHTML: string)
          (childElements: "element list")

type_synonym loc = "nat list"

type_synonym jq = "loc list"

fun element_at :: "element \<Rightarrow> loc \<Rightarrow> element option" where
  "element_at e [] = Some e"
| "element_at e (i # l) =
     (if i < length (childElements e) then element_at (childElements e ! i) l else None)"

text \<open>The locations of the proper descendants of an element, in document order.\<close>

fun locs_below :: "element \<Rightarrow> loc list"
  and locs_from :: "nat \<Rightarrow> element list \<Rightarrow> loc list" where
  "locs_below (Element t a s h kids) = locs_from 0 kids"
| "locs_from i [] = []"
| "locs_from i (k # ks) = [i] # map ((#) i) (locs_below k) @ locs_from (Suc i) ks"

text \<open>The ancestors of a location, the parent first and the root last.\<close>

definition ancestors :: "loc \<Rightarrow> loc list" where
  "ancestors l = map (\<lambda>n. take n l) (rev [0..<length l])"

text \<open>
  The selectors of this file: \<^verbatim>\<open>option\<close> and \<^verbatim>\<open>optgroup\<close> are \<open>Tag\<close>,
  \<^verbatim>\<open>option:selected\<close> is \<open>TagSelected\<close>. \<open>AttrEquals k v\<close> is the test
  that the attribute \<open>k\<close> has the value \<open>v\<close>.
\<close>

datatype selector = Tag string | TagSelected string | AttrEquals string string

fun matches :: "selector \<Rightarrow> element \<Rightarrow> bool" where
  "matches (Tag t) e = (tagName e = t)"
| "matches (TagSelected t) e = (tagName e = t \<and> selected e)"
| "matches (AttrEquals k v) e = (map_of (attributes e) k = Some v)"

definition matches_at :: "selector \<Rightarrow> element \<Rightarrow> loc \<Rightarrow> bool" where
  "matches_at sel pg l = (case element_at pg l of None \<Rightarrow> False | Some e \<Rightarrow> matches sel e)"

text \<open>
  \<^verbatim>\<open>$(selector, context)\<close> and \<^verbatim>\<open>context.find(selector)\<close>: the descendants of
  the context elements that match. With more than one context element jQuery removes
  duplicates and sorts into document order, which on locations is the lexicographic
  order.
\<close>

definition jq_find :: "selector \<Rightarrow> element \<Rightarrow> jq \<Rightarrow> jq" where
  "jq_find sel pg ctx =
     (let found = concat (map (\<lambda>c. case element_at pg c of
                                       None \<Rightarrow> []
                                     | Some e \<Rightarrow> filter (matches_at sel pg)
                                                   (map ((@) c) (locs_below e))) ctx)
      in if length ctx > 1 then sort (remdups found) else found)"

definition jq_filter :: "(element \<Rightarrow> loc \<Rightarrow> bool) \<Rightarrow> element \<Rightarrow> jq \<Rightarrow> jq" where
  "jq_filter test pg q = filter (test pg) q"

definition jq_first :: "jq \<Rightarrow> jq" where
  "jq_first q = take 1 q"

text \<open>
  \<^verbatim>\<open>.parents(selector)\<close>: the ancestors that match, the nearest first; with more
  than one element in the object, without duplicates and in reverse document order.
\<close>

definition jq_parents :: "selector \<Rightarrow> element \<Rightarrow> jq \<Rightarrow> jq" where
  "jq_parents sel pg q =
     (let found = filter (matches_at sel pg) (concat (map ancestors q))
      in if length q > 1 then rev (sort (remdups found)) else found)"

text \<open>\<^verbatim>\<open>.html()\<close> and \<^verbatim>\<open>.attr(name)\<close> read the first element of the object.\<close>

definition jq_html :: "element \<Rightarrow> jq \<Rightarrow> jsval" where
  "jq_html pg q =
     (case q of
        [] \<Rightarrow> JUndefined
      | l # _ \<Rightarrow> (case element_at pg l of None \<Rightarrow> JUndefined | Some e \<Rightarrow> JString (innerHTML e)))"

definition jq_attr :: "element \<Rightarrow> jq \<Rightarrow> string \<Rightarrow> jsval" where
  "jq_attr pg q k =
     (case q of
        [] \<Rightarrow> JUndefined
      | l # _ \<Rightarrow>
          (case element_at pg l of
             None \<Rightarrow> JUndefined
           | Some e \<Rightarrow> (case map_of (attributes e) k of None \<Rightarrow> JUndefined | Some v \<Rightarrow> JString v)))"

text \<open>
  What the browser and jQuery do that this file relies on and that is not modelled:
  \<open>setHtml page l markup\<close> is the page after \<^verbatim>\<open>.html(markup)\<close> on the element at
  \<open>l\<close> (the markup parsed, the content replaced); \<open>dataAttr\<close> is the conversion
  \<^verbatim>\<open>.data()\<close> applies to the string of a \<^verbatim>\<open>data-*\<close> attribute
  (\<^verbatim>\<open>"0"\<close> becomes the number 0, \<^verbatim>\<open>""\<close> stays the empty string);
  \<open>parseSelector\<close> is the selector engine on a selector put together at run time:
  \<open>None\<close> when the engine throws, otherwise the test that \<^verbatim>\<open>.filter(selector)\<close>
  applies to the element at a location of a page.
\<close>

record browser =
  setHtml :: "element \<Rightarrow> loc \<Rightarrow> string \<Rightarrow> element"
  dataAttr :: "string \<Rightarrow> jsval"
  parseSelector :: "string \<Rightarrow> (element \<Rightarrow> loc \<Rightarrow> bool) option"

text \<open>\<^verbatim>\<open>.data(key)\<close> with nothing stored: the attribute \<^verbatim>\<open>data-key\<close> of the first element.\<close>

definition jq_data :: "browser \<Rightarrow> element \<Rightarrow> jq \<Rightarrow> string \<Rightarrow> jsval" where
  "jq_data B pg q key =
     (case q of
        [] \<Rightarrow> JUndefined
      | l # _ \<Rightarrow>
          (case element_at pg l of
             None \<Rightarrow> JUndefined
           | Some e \<Rightarrow>
               (case map_of (attributes e) (''data-'' @ key) of
                  None \<Rightarrow> JUndefined
                | Some v \<Rightarrow> dataAttr B v)))"

text \<open>String conversion, as \<^verbatim>\<open>+\<close> with a string applies it.\<close>

fun js_toString :: "jsval \<Rightarrow> string" where
  "js_toString JUndefined = ''undefined''"
| "js_toString JNull = ''null''"
| "js_toString (JBool b) = (if b then ''true'' else ''false'')"
| "js_toString (JNumber n) = n"
| "js_toString (JString s) = s"

subsection \<open>The view\<close>

text \<open>
  \<open>course_settings\<close> is a Backbone model: \<^verbatim>\<open>get('category_map')\<close> reads one of
  its attributes, the others are left open.
\<close>

record 'a course_settings =
  category_map :: category_map
  other_attributes :: 'a

text \<open>
  A notification sent with \<^verbatim>\<open>this.trigger\<close>: the event name, the argument, and what
  a listener called at that moment gets from \<^verbatim>\<open>getCurrentTopicId()\<close> and
  \<^verbatim>\<open>getFullTopicName()\<close>.
\<close>

record notification =
  event :: string
  payload :: jq
  seenTopicId :: jsval
  seenTopicText :: jsval

record 'a view_state =
  course_settings :: "'a course_settings"
  currentTopicId :: jsval
  topicText :: jsval
  el :: loc
  page :: element
  triggered :: "notification list"

record 'a options =
  opt_course_settings :: "'a course_settings"
  topicId :: jsval

text \<open>
  \<^verbatim>\<open>initialize\<close>, lines 15-22. \<^verbatim>\<open>_.bindAll\<close> fixes \<^verbatim>\<open>this\<close> of the handler, which
  the explicit state passing makes moot.
\<close>

definition initialize :: "'a options \<Rightarrow> 'a view_state \<Rightarrow> 'a view_state" where
  "initialize options s =
     s\<lparr>course_settings := opt_course_settings options, currentTopicId := topicId options\<rparr>"

definition getCurrentTopicId :: "'a view_state \<Rightarrow> jsval" where
  "getCurrentTopicId s = currentTopicId s"

text \<open>
  \<^verbatim>\<open>$(item).attr('label')\<close> as line 93 pastes it into the name: a group without the
  attribute gives the word \<^verbatim>\<open>undefined\<close>.
\<close>

definition group_label :: "element \<Rightarrow> loc \<Rightarrow> string" where
  "group_label pg item = js_toString (jq_attr pg [item] ''label'')"

text \<open>
  \<^verbatim>\<open>getFullTopicName\<close>, lines 88-99. A jQuery object is truthy even when empty, so
  \<open>None\<close> is the call without an argument.
\<close>

definition getFullTopicName :: "'a view_state \<Rightarrow> jq option \<Rightarrow> jsval" where
  "getFullTopicName s topicElement =
     (case topicElement of
        Some te \<Rightarrow>
          foldl (\<lambda>name item. JString (group_label (page s) item @ '' / '' @ js_toString name))
                (jq_html (page s) te)
                (jq_parents (Tag ''optgroup'') (page s) te)
      | None \<Rightarrow> topicText s)"

definition trigger :: "string \<Rightarrow> jq \<Rightarrow> 'a view_state \<Rightarrow> 'a view_state" where
  "trigger name arg s =
     s\<lparr>triggered := triggered s @
         [\<lparr>event = name, payload = arg,
           seenTopicId = getCurrentTopicId s,
           seenTopicText = getFullTopicName s None\<rparr>]\<rparr>"

text \<open>
  \<^verbatim>\<open>setTopic\<close>, lines 67-76. \<open>selected_option\<close> is \<^verbatim>\<open>$option\<close> (line 68)
  and \<open>discussion_id\<close> is \<^verbatim>\<open>$option.data('discussion-id')\<close>.
\<close>

definition selected_option :: "'a view_state \<Rightarrow> jq \<Rightarrow> jq" where
  "selected_option s target = jq_find (TagSelected ''option'') (page s) target"

definition discussion_id :: "browser \<Rightarrow> 'a view_state \<Rightarrow> jq \<Rightarrow> jsval" where
  "discussion_id B s opt = jq_data B (page s) opt ''discussion-id''"

definition setTopic :: "browser \<Rightarrow> jq \<Rightarrow> 'a view_state \<Rightarrow> 'a view_state" where
  "setTopic B target s =
     (let opt = selected_option s target in
      if truthy (discussion_id B s opt) then
        (let s1 = s\<lparr>topicText := getFullTopicName s (Some opt)\<rparr>;
             s2 = s1\<lparr>currentTopicId := discussion_id B s1 opt\<rparr>
         in trigger ''thread:topic_change'' opt s2)
      else s)"

text \<open>\<^verbatim>\<open>handleTopicEvent\<close>, lines 62-65; \<open>target\<close> is \<^verbatim>\<open>event.target\<close>.\<close>

definition handleTopicEvent :: "browser \<Rightarrow> loc \<Rightarrow> 'a view_state \<Rightarrow> 'a view_state" where
  "handleTopicEvent B target s = setTopic B [target] s"

text \<open>
  The object that \<^verbatim>\<open>render\<close> hands to \<^verbatim>\<open>setTopic\<close>, lines 28-34.
  \<^verbatim>\<open>this.$(selector)\<close> is \<^verbatim>\<open>this.$el.find(selector)\<close> and takes no second
  argument. \<open>id_selector\<close> is the selector of line 30, the id pasted between double
  quotes (\<open>CHR 0x22\<close>); what the engine makes of it is the browser's
  \<open>parseSelector\<close>.
\<close>

definition id_selector :: "jsval \<Rightarrow> string" where
  "id_selector v = ''[data-discussion-id='' @ [CHR 0x22] @ js_toString v @ [CHR 0x22] @ '']''"

definition render_target :: "browser \<Rightarrow> 'a view_state \<Rightarrow> error + jq" where
  "render_target B s =
     (let options = jq_find (Tag ''option'') (page s) [el s] in
      if truthy (getCurrentTopicId s) then
        (case parseSelector B (id_selector (getCurrentTopicId s)) of
           None \<Rightarrow> Inl SelectorError
         | Some test \<Rightarrow> Inr (jq_filter test (page s) options))
      else Inr (jq_first options))"

text \<open>\<^verbatim>\<open>render\<close>, lines 24-36; the result is \<^verbatim>\<open>this.$el\<close> and the new state.\<close>

definition render ::
  "'a course_settings templates \<Rightarrow> browser \<Rightarrow> 'a view_state \<Rightarrow> error + (jq \<times> 'a view_state)" where
  "render T B s =
     (case renderCategoryMap T (category_map (course_settings s)) of
        Inl e \<Rightarrow> Inl e
      | Inr topics_html \<Rightarrow>
          (let s1 = s\<lparr>page := setHtml B (page s) (el s)
                                 (topicTemplate T (course_settings s) topics_html)\<rparr>
           in case render_target B s1 of
                Inl e \<Rightarrow> Inl e
              | Inr target \<Rightarrow> Inr ([el s1], setTopic B target s1)))"

text \<open>
  The operations of the view, and the state after one of them; the values they return
  are dropped.
\<close>

datatype 'a operation =
    Initialize "'a options"
  | Render
  | RenderCategoryMap category_map
  | HandleTopicEvent loc
  | SetTopic jq
  | GetCurrentTopicId
  | GetFullTopicName "jq option"

fun run ::
  "'a course_settings templates \<Rightarrow> browser \<Rightarrow> 'a operation \<Rightarrow> 'a view_state \<Rightarrow>
   error + 'a view_state" where
  "run T B (Initialize options) s = Inr (initialize options s)"
| "run T B Render s = (case render T B s of Inl e \<Rightarrow> Inl e | Inr (root, s') \<Rightarrow> Inr s')"
| "run T B (RenderCategoryMap m) s =
     (case renderCategoryMap T m of Inl e \<Rightarrow> Inl e | Inr html \<Rightarrow> Inr s)"
| "run T B (HandleTopicEvent target) s = Inr (handleTopicEvent B target s)"
| "run T B (SetTopic target) s = Inr (setTopic B target s)"
| "run T B GetCurrentTopicId s = Inr s"
| "run T B (GetFullTopicName topicElement) s = Inr s"

text \<open>
  The options below the element at \<open>root\<close> have no child elements. Options parsed
  from markup are so: an option holds text.
\<close>

definition options_childless :: "element \<Rightarrow> loc \<Rightarrow> bool" where
  "options_childless pg root =
     list_all (\<lambda>l. case element_at pg l of None \<Rightarrow> True | Some e \<Rightarrow> childElements e = [])
       (jq_find (Tag ''option'') pg [root])"

subsection \<open>Example data\<close>

definition example_templates :: "unit course_settings templates" where
  "example_templates =
     \<lparr>entryTemplate = (\<lambda>text ident cohorted.
        ''<e '' @ ident @ (if cohorted then ''*'' else []) @ ''>'' @ text @ ''</e>''),
      categoryTemplate = (\<lambda>text inner. ''<c '' @ text @ ''>'' @ inner @ ''</c>''),
      topicTemplate = (\<lambda>attributes topics_html. ''<select>'' @ topics_html @ ''</select>'')\<rparr>"

definition example_map :: category_map where
  "example_map =
     CategoryMap [''General'', ''Week 1'', ''Help'']
       [(''General'', \<lparr>entry_id = ''g1'', is_cohorted = False\<rparr>),
        (''Help'', \<lparr>entry_id = ''h1'', is_cohorted = True\<rparr>)]
       [(''Week 1'',
         CategoryMap [''Lecture'']
           [(''Lecture'', \<lparr>entry_id = ''w1'', is_cohorted = False\<rparr>)] [])]"

definition clash_map :: category_map where
  "clash_map =
     CategoryMap [''General'', ''Help'']
       [(''General'', \<lparr>entry_id = ''g1'', is_cohorted = False\<rparr>),
        (''Help'', \<lparr>entry_id = ''h1'', is_cohorted = True\<rparr>)]
       [(''Help'', CategoryMap [''Missing''] [] [])]"

definition example_store :: store where
  "example_store = (\<lambda>a.
     if a = 0 then
       \<lparr>obj_children = [''General'', ''Week 1'', ''Help''],
        obj_entries = [(''General'', \<lparr>entry_id = ''g1'', is_cohorted = False\<rparr>),
                       (''Help'', \<lparr>entry_id = ''h1'', is_cohorted = True\<rparr>)],
        obj_subcategories = [(''Week 1'', 1)]\<rparr>
     else if a = 1 then
       \<lparr>obj_children = [''Lecture''],
        obj_entries = [(''Lecture'', \<lparr>entry_id = ''w1'', is_cohorted = False\<rparr>)],
        obj_subcategories = []\<rparr>
     else \<lparr>obj_children = [], obj_entries = [], obj_subcategories = []\<rparr>)"

text \<open>
  A conversion for \<open>dataAttr\<close>. It is jQuery's (version 1.8 and later) on the words
  \<^verbatim>\<open>true\<close>, \<^verbatim>\<open>false\<close>, \<^verbatim>\<open>null\<close>, \<^verbatim>\<open>NaN\<close> and the infinities, on
  integers of at most 15 digits, which JavaScript prints back digit for digit, and on
  every string that JavaScript does not read as a number. A string that JavaScript reads
  as a fraction, as a number in exponent form or as a longer integer, or that is written
  as JSON, is left a string here, though jQuery converts some of them.
\<close>

definition plain_integer :: "string \<Rightarrow> bool" where
  "plain_integer v =
     (v \<noteq> [] \<and> length v \<le> 15 \<and> list_all (\<lambda>c. c \<in> set ''0123456789'') v \<and>
      (hd v \<noteq> CHR ''0'' \<or> v = ''0''))"

definition example_dataAttr :: "string \<Rightarrow> jsval" where
  "example_dataAttr v =
     (if v = ''true'' then JBool True
      else if v = ''false'' then JBool False
      else if v = ''null'' then JNull
      else if v = ''NaN'' \<or> v = ''Infinity'' \<or> v = ''-Infinity'' \<or> plain_integer v \<or>
              (v \<noteq> [] \<and> hd v = CHR ''-'' \<and> plain_integer (tl v) \<and> tl v \<noteq> ''0'')
        then JNumber v
      else JString v)"

text \<open>
  A selector engine for \<open>parseSelector\<close> that knows one form of selector,
  \<^verbatim>\<open>[data-discussion-id="v"]\<close> with neither a double quote nor a backslash in
  \<open>v\<close>, which tests the attribute for the value \<open>v\<close>. It rejects every other
  selector, also those that a real engine accepts.
\<close>

definition example_parseSelector :: "string \<Rightarrow> (element \<Rightarrow> loc \<Rightarrow> bool) option" where
  "example_parseSelector sel =
     (let opening = ''[data-discussion-id='' @ [CHR 0x22];
          closing = [CHR 0x22] @ '']'';
          v = take (length sel - length opening - length closing) (drop (length opening) sel)
      in if sel = opening @ v @ closing \<and> CHR 0x22 \<notin> set v \<and> CHR 0x5C \<notin> set v
         then Some (matches_at (AttrEquals ''data-discussion-id'' v))
         else None)"

text \<open>
  The menu that the example templates describe for \<open>example_map\<close>; the first option is
  the selected one, as in a menu the user has not touched. The markup of the inner
  elements is not read and is left empty.
\<close>

definition example_menu :: "element list" where
  "example_menu =
     [Element ''select'' [(''class'', ''post-topic'')] False []
        [Element ''option'' [(''data-discussion-id'', ''g1'')] True ''General'' [],
         Element ''optgroup'' [(''label'', ''Week 1'')] False []
           [Element ''option'' [(''data-discussion-id'', ''w1'')] False ''Lecture'' []],
         Element ''option'' [(''data-discussion-id'', ''h1'')] False ''Help'' []]]"

text \<open>A browser for a view whose element is the root of the page.\<close>

definition example_browser :: browser where
  "example_browser =
     \<lparr>setHtml = (\<lambda>pg l markup.
        if l = [] then
          Element (tagName pg) (attributes pg) (selected pg) markup
            (if markup = ''<select><e g1>General</e><c Week 1><e w1>Lecture</e></c><e h1*>Help</e></select>''
             then example_menu else [])
        else pg),
      dataAttr = example_dataAttr,
      parseSelector = example_parseSelector\<rparr>"

definition example_settings :: "unit course_settings" where
  "example_settings = \<lparr>category_map = example_map, other_attributes = ()\<rparr>"

definition example_state :: "unit view_state" where
  "example_state =
     \<lparr>course_settings = example_settings,
      currentTopicId = JUndefined,
      topicText = JUndefined,
      el = [],
      page = Element ''div'' [(''class'', ''post-field'')] False [] example_menu,
      triggered = []\<rparr>"

text \<open>
  A view showing \<open>General\<close> whose menu has a single, selected option with the given
  attributes.
\<close>

definition single_option_state :: "(string \<times> string) list \<Rightarrow> unit view_state" where
  "single_option_state attrs =
     \<lparr>course_settings = example_settings,
      currentTopicId = JString ''g1'',
      topicText = JString ''General'',
      el = [],
      page = Element ''div'' [(''class'', ''post-field'')] False []
               [Element ''select'' [(''class'', ''post-topic'')] False []
                  [Element ''option'' attrs True ''Choose a topic'' []]],
      triggered = []\<rparr>"


text \<open>The page of \<open>example_state\<close> once the example browser has rendered it.\<close>

definition example_rendered_page :: element where
  "example_rendered_page =
     Element ''div'' [(''class'', ''post-field'')] False
       ''<select><e g1>General</e><c Week 1><e w1>Lecture</e></c><e h1*>Help</e></select>''
       example_menu"

section \<open>Properties\<close>

subsection \<open>Rendering the category map\<close>

lemma map_result_all_Inr:
  "(\<And>x. x \<in> set xs \<Longrightarrow> f x = Inr (g x)) \<Longrightarrow> map_result f xs = Inr (map g xs)"
  by (induction xs) simp_all

lemma renderCategoryMap_unfold:
  "renderCategoryMap T m =
     (case map_result (renderChild T m) (children m) of
        Inl e \<Rightarrow> Inl e
      | Inr htmls \<Rightarrow> Inr (concat htmls))"
  unfolding renderChild_def by (subst renderCategoryMap.simps) (rule refl)

lemma well_formed_child:
  assumes "well_formed m" and "name \<in> set (children m)"
  shows "case map_of (entries m) name of
           Some entry \<Rightarrow> True
         | None \<Rightarrow>
             (case map_of (subcategories m) name of
                None \<Rightarrow> False
              | Some sub \<Rightarrow> well_formed sub)"
  using assms by (subst (asm) well_formed.simps) (simp add: list_all_iff)

text \<open>
  C3 as first stated fails: on a map whose one child name is neither an entry nor a
  subcategory \<open>renderCategoryMap\<close> raises and returns no markup.
\<close>

theorem renderCategoryMap_unnamed_child_counterexample:
  "renderCategoryMap example_templates (CategoryMap [''Missing''] [] []) = Inl TypeError"
  by code_simp

text \<open>
  C3, amended. On a well-formed category map, one in which every child name that is not
  an entry names a subcategory, and so on in the subcategories that are visited,
  \<open>renderCategoryMap\<close> returns, without raising,
  the concatenation in the order of \<open>children\<close> of one fragment per child name:
  the entry fragment (name, id, cohort flag) for a name in \<open>entries\<close>, otherwise
  the category fragment around the rendering of the subcategory of that name.
\<close>

theorem renderCategoryMap_fragments_in_order:
  "well_formed m \<Longrightarrow> renderCategoryMap T m = Inr (spec_renderCategoryMap T m)"
proof (induction m rule: well_formed.induct)
  case (1 m)
  let ?g = "\<lambda>name. case map_of (entries m) name of
               Some entry \<Rightarrow> entryTemplate T name (entry_id entry) (is_cohorted entry)
             | None \<Rightarrow>
                 (case map_of (subcategories m) name of
                    None \<Rightarrow> []
                  | Some sub \<Rightarrow> categoryTemplate T name (spec_renderCategoryMap T sub))"
  have each: "renderChild T m name = Inr (?g name)" if "name \<in> set (children m)" for name
  proof (cases "map_of (entries m) name")
    case (Some e)
    then show ?thesis by (simp add: renderChild_def)
  next
    case None
    show ?thesis
    proof (cases "map_of (subcategories m) name")
      case N2: None
      with None well_formed_child [OF "1.prems" that] show ?thesis by simp
    next
      case (Some sub)
      with None well_formed_child [OF "1.prems" that] have "well_formed sub" by simp
      with "1.IH" [OF that None Some]
      have "renderCategoryMap T sub = Inr (spec_renderCategoryMap T sub)" .
      with None Some show ?thesis by (simp add: renderChild_def)
    qed
  qed
  have "map_result (renderChild T m) (children m) = Inr (map ?g (children m))"
    by (rule map_result_all_Inr) (rule each)
  then show ?case
    by (subst renderCategoryMap_unfold, subst spec_renderCategoryMap.simps) simp
qed

theorem renderCategoryMap_fragments_in_order_witness:
  "well_formed example_map \<and>
   renderCategoryMap example_templates example_map =
     Inr ''<e g1>General</e><c Week 1><e w1>Lecture</e></c><e h1*>Help</e>''"
proof -
  have wf: "well_formed example_map"
    by code_simp
  have "spec_renderCategoryMap example_templates example_map =
     ''<e g1>General</e><c Week 1><e w1>Lecture</e></c><e h1*>Help</e>''"
    by code_simp
  with wf renderCategoryMap_fragments_in_order [OF wf, of example_templates]
  show ?thesis by simp
qed

text \<open>
  C9. When a child name is both in \<open>entries\<close> and in \<open>subcategories\<close>, the
  name is rendered as the entry fragment, and the rendering of the whole map does not
  depend on what \<open>subcategories\<close> holds under that name: the subcategory is never
  visited, whatever it is.
\<close>

theorem entries_take_precedence:
  assumes "name \<in> set ch" and "map_of es name = Some entry" and "map_of subs name = Some sub"
  shows "renderChild T (CategoryMap ch es subs) name =
           Inr (entryTemplate T name (entry_id entry) (is_cohorted entry)) \<and>
         (\<forall>subs'. (\<forall>n. n \<noteq> name \<longrightarrow> map_of subs' n = map_of subs n) \<longrightarrow>
            renderCategoryMap T (CategoryMap ch es subs') =
            renderCategoryMap T (CategoryMap ch es subs))"
proof (intro conjI allI impI)
  show "renderChild T (CategoryMap ch es subs) name =
           Inr (entryTemplate T name (entry_id entry) (is_cohorted entry))"
    using assms(2) by (simp add: renderChild_def)
next
  fix subs'
  assume agree: "\<forall>n. n \<noteq> name \<longrightarrow> map_of subs' n = map_of subs n"
  have "renderChild T (CategoryMap ch es subs') n = renderChild T (CategoryMap ch es subs) n"
    for n
  proof (cases "n = name")
    case True
    with assms(2) show ?thesis by (simp add: renderChild_def)
  next
    case False
    with agree have "map_of subs' n = map_of subs n" by simp
    then show ?thesis by (simp add: renderChild_def cong: option.case_cong)
  qed
  then have "map_result (renderChild T (CategoryMap ch es subs')) ch =
             map_result (renderChild T (CategoryMap ch es subs)) ch"
    by (intro map_result_agree)
  then show "renderCategoryMap T (CategoryMap ch es subs') =
             renderCategoryMap T (CategoryMap ch es subs)"
    by (simp add: renderCategoryMap_unfold)
qed

theorem entries_take_precedence_witness:
  "''Help'' \<in> set (children clash_map) \<and>
   map_of (entries clash_map) ''Help'' = Some \<lparr>entry_id = ''h1'', is_cohorted = True\<rparr> \<and>
   map_of (subcategories clash_map) ''Help'' = Some (CategoryMap [''Missing''] [] []) \<and>
   renderCategoryMap example_templates (CategoryMap [''Missing''] [] []) = Inl TypeError \<and>
   renderChild example_templates clash_map ''Help'' = Inr ''<e h1*>Help</e>'' \<and>
   renderCategoryMap example_templates clash_map = Inr ''<e g1>General</e><e h1*>Help</e>''"
proof -
  let ?es = "[(''General'', \<lparr>entry_id = ''g1'', is_cohorted = False\<rparr>),
        (''Help'', \<lparr>entry_id = ''h1'', is_cohorted = True\<rparr>)]"
  let ?sub = "CategoryMap [''Missing''] [] []"
  have a1: "''Help'' \<in> set [''General'', ''Help'']" by simp
  have a2: "map_of ?es ''Help'' = Some \<lparr>entry_id = ''h1'', is_cohorted = True\<rparr>" by simp
  have a3: "map_of [(''Help'', ?sub)] ''Help'' = Some ?sub" by simp
  have sub: "renderCategoryMap example_templates ?sub = Inl TypeError" by code_simp
  have plain: "renderCategoryMap example_templates (CategoryMap [''General'', ''Help''] ?es [])
     = Inr ''<e g1>General</e><e h1*>Help</e>''" by code_simp
  note precedence = entries_take_precedence [OF a1 a2 a3, of example_templates]
  from precedence
  have child: "renderChild example_templates
      (CategoryMap [''General'', ''Help''] ?es [(''Help'', ?sub)]) ''Help'' =
      Inr ''<e h1*>Help</e>''"
    by (simp add: example_templates_def)
  have "\<forall>n. n \<noteq> ''Help'' \<longrightarrow> map_of [] n = map_of [(''Help'', ?sub)] n" by simp
  with precedence
  have "renderCategoryMap example_templates (CategoryMap [''General'', ''Help''] ?es []) =
        renderCategoryMap example_templates
          (CategoryMap [''General'', ''Help''] ?es [(''Help'', ?sub)])"
    by blast
  with plain
  have whole: "renderCategoryMap example_templates
      (CategoryMap [''General'', ''Help''] ?es [(''Help'', ?sub)]) =
      Inr ''<e g1>General</e><e h1*>Help</e>''"
    by simp
  from a1 a2 a3 sub child whole show ?thesis
    by (simp add: clash_map_def)
qed

text \<open>
  The hypothesis of C3 cannot be dropped: a map that is not well formed makes
  \<open>renderCategoryMap\<close> raise.
\<close>

lemma map_result_Inl:
  "map_result f xs = Inl e \<Longrightarrow> \<exists>x \<in> set xs. f x = Inl e"
proof (induction xs)
  case Nil
  then show ?case by simp
next
  case (Cons x xs)
  show ?case
  proof (cases "f x")
    case (Inl e')
    with Cons.prems show ?thesis by simp
  next
    case (Inr y)
    with Cons.prems have "map_result f xs = Inl e" by (simp split: sum.splits)
    with Cons.IH show ?thesis by auto
  qed
qed

lemma map_result_fails:
  "x \<in> set xs \<Longrightarrow> f x = Inl e \<Longrightarrow> \<exists>e'. map_result f xs = Inl e'"
proof (induction xs)
  case Nil
  then show ?case by simp
next
  case (Cons y ys)
  show ?case
  proof (cases "f y")
    case (Inl e')
    then show ?thesis by simp
  next
    case (Inr z)
    with Cons.prems have "x \<in> set ys" by auto
    with Cons.IH Cons.prems(2) obtain e' where "map_result f ys = Inl e'" by blast
    with Inr show ?thesis by simp
  qed
qed

lemma renderCategoryMap_raises_TypeError:
  "renderCategoryMap T m = Inl e \<Longrightarrow> e = TypeError"
proof (induction T m arbitrary: e rule: renderCategoryMap.induct)
  case (1 T m)
  from "1.prems" have "map_result (renderChild T m) (children m) = Inl e"
    by (simp add: renderCategoryMap_unfold split: sum.splits)
  then obtain name where name: "name \<in> set (children m)" "renderChild T m name = Inl e"
    using map_result_Inl by fastforce
  show ?case
  proof (cases "map_of (entries m) name")
    case (Some entry)
    with name(2) show ?thesis by (simp add: renderChild_def)
  next
    case None
    show ?thesis
    proof (cases "map_of (subcategories m) name")
      case N2: None
      with None name(2) show ?thesis by (simp add: renderChild_def)
    next
      case (Some sub)
      with None name(2) have "renderCategoryMap T sub = Inl e"
        by (simp add: renderChild_def split: sum.splits)
      with "1.IH" [OF name(1) None Some] show ?thesis .
    qed
  qed
qed

lemma renderCategoryMap_ill_formed:
  "\<not> well_formed m \<Longrightarrow> renderCategoryMap T m = Inl TypeError"
proof (induction m rule: well_formed.induct)
  case (1 m)
  from "1.prems" obtain name where name: "name \<in> set (children m)"
    and bad: "\<not> (case map_of (entries m) name of
                  Some entry \<Rightarrow> True
                | None \<Rightarrow>
                    (case map_of (subcategories m) name of
                       None \<Rightarrow> False
                     | Some sub \<Rightarrow> well_formed sub))"
    by (subst (asm) well_formed.simps) (auto simp: list_all_iff)
  from bad have none: "map_of (entries m) name = None" by (simp split: option.splits)
  have "renderChild T m name = Inl TypeError"
  proof (cases "map_of (subcategories m) name")
    case None
    with none show ?thesis by (simp add: renderChild_def)
  next
    case (Some sub)
    with none bad have "\<not> well_formed sub" by simp
    with "1.IH" [OF name none Some] have "renderCategoryMap T sub = Inl TypeError" .
    with none Some show ?thesis by (simp add: renderChild_def)
  qed
  with name obtain e where "map_result (renderChild T m) (children m) = Inl e"
    using map_result_fails by fastforce
  then have "renderCategoryMap T m = Inl e" by (simp add: renderCategoryMap_unfold)
  then show ?case using renderCategoryMap_raises_TypeError by blast
qed

subsection \<open>Termination of the rendering\<close>

lemma map_steps_returns:
  "(\<And>x. x \<in> set xs \<Longrightarrow> f x \<noteq> None) \<Longrightarrow> map_steps f xs \<noteq> None"
  by (induction xs) (auto split: option.splits sum.splits)

lemma renderCategoryMap_ref_returns:
  "chains_bounded n h a \<Longrightarrow> renderCategoryMap_ref n T h a \<noteq> None"
proof (induction n arbitrary: a)
  case 0
  then show ?case by simp
next
  case (Suc n)
  have "map_steps
          (\<lambda>name.
                case map_of (obj_entries (h a)) name of
                  Some entry \<Rightarrow>
                    Some (Inr (entryTemplate T name (entry_id entry) (is_cohorted entry)))
                | None \<Rightarrow>
                    (case map_of (obj_subcategories (h a)) name of
                       None \<Rightarrow> Some (Inl TypeError)
                     | Some a' \<Rightarrow>
                         (case renderCategoryMap_ref n T h a' of
                            None \<Rightarrow> None
                          | Some (Inl e) \<Rightarrow> Some (Inl e)
                          | Some (Inr inner) \<Rightarrow> Some (Inr (categoryTemplate T name inner)))))
          (obj_children (h a)) \<noteq> None"
  proof (rule map_steps_returns)
    fix name
    show "(case map_of (obj_entries (h a)) name of
                  Some entry \<Rightarrow>
                    Some (Inr (entryTemplate T name (entry_id entry) (is_cohorted entry)))
                | None \<Rightarrow>
                    (case map_of (obj_subcategories (h a)) name of
                       None \<Rightarrow> Some (Inl TypeError)
                     | Some a' \<Rightarrow>
                         (case renderCategoryMap_ref n T h a' of
                            None \<Rightarrow> None
                          | Some (Inl e) \<Rightarrow> Some (Inl e)
                          | Some (Inr inner) \<Rightarrow> Some (Inr (categoryTemplate T name inner))))) \<noteq> None"
    proof (cases "map_of (obj_entries (h a)) name")
      case (Some e)
      then show ?thesis by simp
    next
      case None
      show ?thesis
      proof (cases "map_of (obj_subcategories (h a)) name")
        case N2: None
        with None show ?thesis by simp
      next
        case (Some a')
        then have "(name, a') \<in> set (obj_subcategories (h a))" by (rule map_of_SomeD)
        with Suc.prems have "chains_bounded n h a'" by (auto simp: list_all_iff)
        then have "renderCategoryMap_ref n T h a' \<noteq> None" by (rule Suc.IH)
        with None Some show ?thesis by (auto split: sum.splits)
      qed
    qed
  qed
  then show ?case by (auto split: option.splits sum.splits)
qed

lemma renderCategoryMap_ref_loop: "renderCategoryMap_ref k T loop_store 0 = None"
  by (induction k) (simp_all add: loop_store_def)

text \<open>
  C7. When every chain of subcategories below the object \<open>a\<close> has fewer than \<open>n\<close>
  objects, \<open>renderCategoryMap\<close> returns (a string or an exception) within \<open>n\<close>
  nested calls. Nothing but this bound ends the recursion: on the map that is its own
  subcategory no number of nested calls is enough.
\<close>

theorem renderCategoryMap_ref_terminates_on_finite_trees:
  "(chains_bounded n h a \<longrightarrow> (\<exists>r. renderCategoryMap_ref n T h a = Some r)) \<and>
   (\<forall>k. renderCategoryMap_ref k T loop_store 0 = None)"
  using renderCategoryMap_ref_returns [of n h a T] renderCategoryMap_ref_loop [of _ T]
  by auto

theorem renderCategoryMap_ref_terminates_on_finite_trees_witness:
  "chains_bounded 2 example_store 0 \<and>
   renderCategoryMap_ref 2 example_templates example_store 0 =
     Some (Inr ''<e g1>General</e><c Week 1><e w1>Lecture</e></c><e h1*>Help</e>'')"
proof -
  have b: "chains_bounded 2 example_store 0" by code_simp
  have "renderCategoryMap_ref 2 example_templates example_store 0 =
     Some (Inr ''<e g1>General</e><c Week 1><e w1>Lecture</e></c><e h1*>Help</e>'')"
    by code_simp
  with b renderCategoryMap_ref_terminates_on_finite_trees [of 2 example_store 0 example_templates]
  show ?thesis by simp
qed

text \<open>
  The two models agree: when the objects below \<open>a\<close> are the tree \<open>m\<close>, every
  large enough number of nested calls gives what \<open>renderCategoryMap\<close> gives on \<open>m\<close>.
\<close>

lemma map_steps_map_result:
  "(\<And>x. x \<in> set xs \<Longrightarrow> f x = Some (g x)) \<Longrightarrow> map_steps f xs = Some (map_result g xs)"
  by (induction xs) (simp_all split: sum.splits)

lemma map_of_represented:
  assumes "list_all2 (\<lambda>ref sub. fst ref = fst sub \<and> Q (snd ref) (snd sub)) refs subs"
  shows "(map_of refs name = None \<and> map_of subs name = None) \<or>
         (\<exists>a' m'. map_of refs name = Some a' \<and> map_of subs name = Some m' \<and> Q a' m')"
  using assms by (induction rule: list_all2_induct) auto

lemma common_bound:
  "(\<And>x. x \<in> set xs \<Longrightarrow> \<exists>n. \<forall>k\<ge>n. P (k :: nat) x) \<Longrightarrow> \<exists>n. \<forall>k\<ge>n. \<forall>x \<in> set xs. P k x"
proof (induction xs)
  case Nil
  then show ?case by simp
next
  case (Cons x xs)
  then obtain n where n: "\<forall>k\<ge>n. \<forall>y \<in> set xs. P k y" by auto
  from Cons.prems [of x] obtain n' where n': "\<forall>k\<ge>n'. P k x" by auto
  have "\<forall>k\<ge>max n n'. \<forall>y \<in> set (x # xs). P k y"
  proof (intro allI impI ballI)
    fix k y
    assume "max n n' \<le> k" and y: "y \<in> set (x # xs)"
    then have "n \<le> k" and "n' \<le> k" by simp_all
    with n n' y show "P k y" by auto
  qed
  then show ?case by blast
qed

lemma renderCategoryMap_ref_represents:
  "represents h a m \<Longrightarrow> \<exists>n. \<forall>k\<ge>n. renderCategoryMap_ref k T h a = Some (renderCategoryMap T m)"
proof (induction rule: represents.induct)
  case (1 h a ch es subs)
  let ?Q = "\<lambda>a' m'. \<exists>n. \<forall>k\<ge>n. renderCategoryMap_ref k T h a' = Some (renderCategoryMap T m')"
  let ?m = "CategoryMap ch es subs"
  let ?f = "\<lambda>k name.
                case map_of (obj_entries (h a)) name of
                  Some entry \<Rightarrow>
                    Some (Inr (entryTemplate T name (entry_id entry) (is_cohorted entry)))
                | None \<Rightarrow>
                    (case map_of (obj_subcategories (h a)) name of
                       None \<Rightarrow> Some (Inl TypeError)
                     | Some a' \<Rightarrow>
                         (case renderCategoryMap_ref k T h a' of
                            None \<Rightarrow> None
                          | Some (Inl e) \<Rightarrow> Some (Inl e)
                          | Some (Inr inner) \<Rightarrow> Some (Inr (categoryTemplate T name inner))))"
  from "1"(3)
  have subs: "list_all2 (\<lambda>ref sub. fst ref = fst sub \<and> ?Q (snd ref) (snd sub))
                (obj_subcategories (h a)) subs"
    by (rule list_all2_mono) auto
  have each: "\<exists>n. \<forall>k\<ge>n. ?f k name = Some (renderChild T ?m name)" for name
  proof (cases "map_of es name")
    case (Some e)
    with "1"(2) show ?thesis by (simp add: renderChild_def)
  next
    case None
    from map_of_represented [OF subs, of name] show ?thesis
    proof
      assume "map_of (obj_subcategories (h a)) name = None \<and> map_of subs name = None"
      with None "1"(2) show ?thesis by (simp add: renderChild_def)
    next
      assume "\<exists>a' m'. map_of (obj_subcategories (h a)) name = Some a' \<and>
                map_of subs name = Some m' \<and> ?Q a' m'"
      then obtain a' m' n where
        l: "map_of (obj_subcategories (h a)) name = Some a'" "map_of subs name = Some m'"
        and n: "\<forall>k\<ge>n. renderCategoryMap_ref k T h a' = Some (renderCategoryMap T m')"
        by blast
      have "\<forall>k\<ge>n. ?f k name = Some (renderChild T ?m name)"
      proof (intro allI impI)
        fix k assume "n \<le> k"
        with n have "renderCategoryMap_ref k T h a' = Some (renderCategoryMap T m')" by simp
        with None l "1"(2) show "?f k name = Some (renderChild T ?m name)"
          by (simp add: renderChild_def split: sum.splits)
      qed
      then show ?thesis by blast
    qed
  qed
  have "\<exists>n. \<forall>k\<ge>n. \<forall>name \<in> set ch. ?f k name = Some (renderChild T ?m name)"
    by (rule common_bound) (rule each)
  then obtain n where n: "\<forall>k\<ge>n. \<forall>name \<in> set ch. ?f k name = Some (renderChild T ?m name)"
    by blast
  have "\<forall>k\<ge>Suc n. renderCategoryMap_ref k T h a = Some (renderCategoryMap T ?m)"
  proof (intro allI impI)
    fix k assume "Suc n \<le> k"
    then obtain k' where k: "k = Suc k'" and k': "n \<le> k'" by (cases k) auto
    from n k' have "map_steps (?f k') ch = Some (map_result (renderChild T ?m) ch)"
      by (intro map_steps_map_result) simp
    with "1"(1) k show "renderCategoryMap_ref k T h a = Some (renderCategoryMap T ?m)"
      by (simp add: renderCategoryMap_unfold split: sum.splits)
  qed
  then show ?case by blast
qed

subsection \<open>Choosing a topic\<close>

lemma setTopic_truthy:
  "truthy (discussion_id B s (selected_option s target)) \<Longrightarrow>
   setTopic B target s =
     s\<lparr>topicText := getFullTopicName s (Some (selected_option s target)),
       currentTopicId := discussion_id B s (selected_option s target),
       triggered := triggered s @
         [\<lparr>event = ''thread:topic_change'', payload = selected_option s target,
           seenTopicId = discussion_id B s (selected_option s target),
           seenTopicText = getFullTopicName s (Some (selected_option s target))\<rparr>]\<rparr>"
  by (simp add: setTopic_def Let_def trigger_def discussion_id_def getCurrentTopicId_def
      getFullTopicName_def)

lemma setTopic_falsy:
  "\<not> truthy (discussion_id B s (selected_option s target)) \<Longrightarrow> setTopic B target s = s"
  by (simp add: setTopic_def Let_def)

text \<open>
  C1, amended. When the discussion id that jQuery reads from the selected option under
  the target is truthy, \<open>setTopic\<close> stores that id and the full name of the option and
  sends exactly one \<^verbatim>\<open>thread:topic_change\<close> notification carrying the option; when
  it is not (no id, or an id such as \<^verbatim>\<open>0\<close> or the empty string), the state is left
  as it was and nothing is sent.
\<close>

theorem setTopic_updates_on_truthy_id:
  "(truthy (discussion_id B s (selected_option s target)) \<longrightarrow>
      currentTopicId (setTopic B target s) = discussion_id B s (selected_option s target) \<and>
      topicText (setTopic B target s) = getFullTopicName s (Some (selected_option s target)) \<and>
      triggered (setTopic B target s) =
        triggered s @
          [\<lparr>event = ''thread:topic_change'', payload = selected_option s target,
            seenTopicId = discussion_id B s (selected_option s target),
            seenTopicText = getFullTopicName s (Some (selected_option s target))\<rparr>]) \<and>
   (\<not> truthy (discussion_id B s (selected_option s target)) \<longrightarrow> setTopic B target s = s)"
  by (simp add: setTopic_truthy setTopic_falsy)

theorem setTopic_updates_on_truthy_id_witness:
  "truthy (discussion_id example_browser example_state (selected_option example_state [[0]])) \<and>
   currentTopicId (setTopic example_browser [[0]] example_state) = JString ''g1'' \<and>
   topicText (setTopic example_browser [[0]] example_state) = JString ''General'' \<and>
   triggered (setTopic example_browser [[0]] example_state) =
     [\<lparr>event = ''thread:topic_change'', payload = [[0, 0]],
       seenTopicId = JString ''g1'', seenTopicText = JString ''General''\<rparr>] \<and>
   \<not> truthy (discussion_id example_browser (single_option_state [])
               (selected_option (single_option_state []) [[0]])) \<and>
   setTopic example_browser [[0]] (single_option_state []) = single_option_state []"
proof -
  have sel: "selected_option example_state [[0]] = [[0, 0]]" by code_simp
  have ident: "discussion_id example_browser example_state [[0, 0]] = JString ''g1''"
    by code_simp
  have name: "getFullTopicName example_state (Some [[0, 0]]) = JString ''General''"
    by code_simp
  have old: "triggered example_state = []" by (simp add: example_state_def)
  have none: "discussion_id example_browser (single_option_state [])
               (selected_option (single_option_state []) [[0]]) = JUndefined"
    by code_simp
  from setTopic_updates_on_truthy_id [of example_browser example_state "[[0]]"]
       setTopic_updates_on_truthy_id [of example_browser "single_option_state []" "[[0]]"]
       sel ident name old none
  show ?thesis by simp
qed

text \<open>
  C1 as first stated fails: a selected option whose \<^verbatim>\<open>data-discussion-id\<close> is
  \<^verbatim>\<open>0\<close> carries an id, and \<open>setTopic\<close> keeps the old topic and sends nothing.
\<close>

theorem setTopic_id_zero_counterexample:
  "selected_option (single_option_state [(''data-discussion-id'', ''0'')]) [[0]] = [[0, 0]] \<and>
   element_at (page (single_option_state [(''data-discussion-id'', ''0'')])) [0, 0] =
     Some (Element ''option'' [(''data-discussion-id'', ''0'')] True ''Choose a topic'' []) \<and>
   currentTopicId (setTopic example_browser [[0]]
      (single_option_state [(''data-discussion-id'', ''0'')])) = JString ''g1'' \<and>
   topicText (setTopic example_browser [[0]]
      (single_option_state [(''data-discussion-id'', ''0'')])) = JString ''General'' \<and>
   triggered (setTopic example_browser [[0]]
      (single_option_state [(''data-discussion-id'', ''0'')])) = []"
  by code_simp

text \<open>
  C8. When the selected option has a \<^verbatim>\<open>data-discussion-id\<close> attribute whose value
  jQuery reads as a falsy value (the number 0, the empty string), \<open>setTopic\<close> changes
  nothing: the topic id and name stay and no notification is sent.
\<close>

theorem setTopic_ignores_falsy_id:
  assumes "selected_option s target = l # ls"
    and "element_at (page s) l = Some e"
    and "map_of (attributes e) ''data-discussion-id'' = Some v"
    and "\<not> truthy (dataAttr B v)"
  shows "setTopic B target s = s"
proof -
  from assms have "discussion_id B s (selected_option s target) = dataAttr B v"
    by (simp add: discussion_id_def jq_data_def)
  with assms(4) show ?thesis by (simp add: setTopic_falsy)
qed

theorem setTopic_ignores_falsy_id_witness:
  "dataAttr example_browser ''0'' = JNumber ''0'' \<and>
   dataAttr example_browser [] = JString [] \<and>
   setTopic example_browser [[0]] (single_option_state [(''data-discussion-id'', ''0'')]) =
     single_option_state [(''data-discussion-id'', ''0'')] \<and>
   setTopic example_browser [[0]] (single_option_state [(''data-discussion-id'', [])]) =
     single_option_state [(''data-discussion-id'', [])]"
proof -
  have sel: "selected_option (single_option_state a) [[0]] = [0, 0] # []" for a
    by (simp add: selected_option_def single_option_state_def jq_find_def matches_at_def)
  have at: "element_at (page (single_option_state a)) [0, 0] =
      Some (Element ''option'' a True ''Choose a topic'' [])" for a
    by (simp add: single_option_state_def)
  have attr: "map_of (attributes (Element ''option'' [(''data-discussion-id'', v)] True
      ''Choose a topic'' [])) ''data-discussion-id'' = Some v" for v
    by simp
  have zero: "dataAttr example_browser ''0'' = JNumber ''0''" by code_simp
  have empty: "dataAttr example_browser [] = JString []" by code_simp
  have "\<not> truthy (dataAttr example_browser ''0'')" using zero by simp
  note z = setTopic_ignores_falsy_id [OF sel at attr this]
  have "\<not> truthy (dataAttr example_browser [])" using empty by simp
  note e = setTopic_ignores_falsy_id [OF sel at attr this]
  from z e zero empty show ?thesis by simp
qed

text \<open>
  C10. Whenever \<open>setTopic\<close> sends a notification it sends exactly one, and what a
  listener reads at that moment is the new state: the current topic id is the id of the
  selected option and the cached name is the full name of that option, the same values
  the view holds after \<open>setTopic\<close> has returned.
\<close>

theorem notification_sees_new_state:
  assumes "triggered (setTopic B target s) \<noteq> triggered s"
  shows "\<exists>n. triggered (setTopic B target s) = triggered s @ [n] \<and>
             event n = ''thread:topic_change'' \<and>
             payload n = selected_option s target \<and>
             seenTopicId n = discussion_id B s (selected_option s target) \<and>
             seenTopicId n = getCurrentTopicId (setTopic B target s) \<and>
             seenTopicText n = getFullTopicName s (Some (selected_option s target)) \<and>
             seenTopicText n = getFullTopicName (setTopic B target s) None"
proof (cases "truthy (discussion_id B s (selected_option s target))")
  case True
  then show ?thesis
    by (simp add: setTopic_truthy getCurrentTopicId_def getFullTopicName_def)
next
  case False
  with assms show ?thesis by (simp add: setTopic_falsy)
qed

theorem notification_sees_new_state_witness:
  "triggered (setTopic example_browser [[0]] example_state) \<noteq> triggered example_state \<and>
   (\<exists>n. triggered (setTopic example_browser [[0]] example_state) = triggered example_state @ [n] \<and>
        seenTopicId n = JString ''g1'' \<and>
        getCurrentTopicId (setTopic example_browser [[0]] example_state) = JString ''g1'' \<and>
        seenTopicText n = JString ''General'' \<and>
        getFullTopicName (setTopic example_browser [[0]] example_state) None = JString ''General'')"
proof -
  have new: "triggered (setTopic example_browser [[0]] example_state) =
     [\<lparr>event = ''thread:topic_change'', payload = [[0, 0]],
       seenTopicId = JString ''g1'', seenTopicText = JString ''General''\<rparr>]"
    by code_simp
  have old: "triggered example_state = []" by (simp add: example_state_def)
  from new old have changed:
    "triggered (setTopic example_browser [[0]] example_state) \<noteq> triggered example_state"
    by simp
  from notification_sees_new_state [OF changed] obtain n where
    n: "triggered (setTopic example_browser [[0]] example_state) = triggered example_state @ [n]"
       "seenTopicId n = getCurrentTopicId (setTopic example_browser [[0]] example_state)"
       "seenTopicText n = getFullTopicName (setTopic example_browser [[0]] example_state) None"
    by blast
  from n(1) new old have "n = \<lparr>event = ''thread:topic_change'', payload = [[0, 0]],
       seenTopicId = JString ''g1'', seenTopicText = JString ''General''\<rparr>"
    by simp
  with n changed show ?thesis by auto
qed

text \<open>
  \<open>setTopic\<close> looks for the selected option among the descendants of its target. On
  a target made of elements without children, such as options, it finds none.
\<close>

lemma locs_below_childless: "childElements e = [] \<Longrightarrow> locs_below e = []"
  by (cases e) simp

lemma setTopic_childless_target:
  assumes "\<And>l e. l \<in> set target \<Longrightarrow> element_at (page s) l = Some e \<Longrightarrow> childElements e = []"
  shows "setTopic B target s = s"
proof -
  have "(case element_at (page s) c of
           None \<Rightarrow> []
         | Some e \<Rightarrow> filter (matches_at (TagSelected ''option'') (page s))
                       (map ((@) c) (locs_below e))) = []" if "c \<in> set target" for c
    using assms [OF that] by (auto simp: locs_below_childless split: option.splits)
  then have found: "concat (map (\<lambda>c. case element_at (page s) c of
           None \<Rightarrow> []
         | Some e \<Rightarrow> filter (matches_at (TagSelected ''option'') (page s))
                       (map ((@) c) (locs_below e))) target) = []"
    by simp
  have "selected_option s target = []"
    unfolding selected_option_def jq_find_def Let_def found by simp
  then have "discussion_id B s (selected_option s target) = JUndefined"
    by (simp add: discussion_id_def jq_data_def)
  then show ?thesis by (simp add: setTopic_falsy)
qed

subsection \<open>The full name of a topic\<close>




subsection \<open>Initialisation\<close>

text \<open>
  C6. \<open>initialize\<close> stores the settings and the initial topic id and changes nothing
  else: the cached name, the view's element and the page are as before (nothing is
  rendered) and no notification is sent.
\<close>

theorem initialize_assigns_fields_only:
  "course_settings (initialize options s) = opt_course_settings options \<and>
   currentTopicId (initialize options s) = topicId options \<and>
   topicText (initialize options s) = topicText s \<and>
   el (initialize options s) = el s \<and>
   page (initialize options s) = page s \<and>
   triggered (initialize options s) = triggered s \<and>
   view_state.more (initialize options s) = view_state.more s"
  by (simp add: initialize_def)

subsection \<open>Rendering the view\<close>

text \<open>
  C2 as first stated fails: with a stored id that no option carries, \<open>render\<close>
  returns with the state as it was but for the page; the first option, whose id is
  \<^verbatim>\<open>g1\<close>, has not become the current topic.
\<close>

theorem render_unmatched_id_counterexample:
  "render example_templates example_browser (example_state\<lparr>currentTopicId := JString ''missing''\<rparr>) =
     Inr ([[]], example_state\<lparr>currentTopicId := JString ''missing'',
                               page := example_rendered_page\<rparr>) \<and>
   jq_first (jq_find (Tag ''option'') example_rendered_page [[]]) = [[0, 0]] \<and>
   discussion_id example_browser (example_state\<lparr>page := example_rendered_page\<rparr>) [[0, 0]] =
     JString ''g1''"
  by code_simp

text \<open>
  C2, amended. When the category map renders and, for a truthy stored id, the selector
  engine accepts the selector \<^verbatim>\<open>[data-discussion-id="id"]\<close> built from it,
  \<open>render\<close> sets the content of the view's element to the topic template applied to
  the settings and the rendered category map, returns the view's element, and hands to
  \<open>setTopic\<close>: the options under the element that match that selector, when a truthy
  id is stored (no option at all when none matches); the first option under the
  element, when no truthy id is stored.
\<close>

theorem render_returns_root_and_hands_options:
  assumes "renderCategoryMap T (category_map (course_settings s)) = Inr topics_html"
    and "s1 = s\<lparr>page := setHtml B (page s) (el s)
                          (topicTemplate T (course_settings s) topics_html)\<rparr>"
    and "truthy (currentTopicId s) \<Longrightarrow>
         parseSelector B (id_selector (currentTopicId s)) = Some test"
  shows "render T B s =
         Inr ([el s],
              setTopic B
                (if truthy (currentTopicId s)
                 then jq_filter test (page s1) (jq_find (Tag ''option'') (page s1) [el s])
                 else jq_first (jq_find (Tag ''option'') (page s1) [el s]))
                s1)"
  using assms
  by (simp add: render_def render_target_def getCurrentTopicId_def Let_def)

theorem render_returns_root_and_hands_options_witness:
  "renderCategoryMap example_templates (category_map (course_settings example_state)) =
     Inr ''<e g1>General</e><c Week 1><e w1>Lecture</e></c><e h1*>Help</e>'' \<and>
   truthy (currentTopicId (example_state\<lparr>currentTopicId := JString ''w1''\<rparr>)) \<and>
   parseSelector example_browser (id_selector (JString ''w1'')) =
     Some (matches_at (AttrEquals ''data-discussion-id'' ''w1'')) \<and>
   render example_templates example_browser (example_state\<lparr>currentTopicId := JString ''w1''\<rparr>) =
     Inr ([[]], setTopic example_browser [[0, 1, 0]]
                  (example_state\<lparr>currentTopicId := JString ''w1'', page := example_rendered_page\<rparr>)) \<and>
   \<not> truthy (currentTopicId example_state) \<and>
   render example_templates example_browser example_state =
     Inr ([[]], setTopic example_browser [[0, 0]]
                  (example_state\<lparr>page := example_rendered_page\<rparr>))"
proof -
  let ?s = "example_state\<lparr>currentTopicId := JString ''w1''\<rparr>"
  let ?s1 = "example_state\<lparr>currentTopicId := JString ''w1'', page := example_rendered_page\<rparr>"
  let ?t1 = "example_state\<lparr>page := example_rendered_page\<rparr>"
  let ?test = "matches_at (AttrEquals ''data-discussion-id'' ''w1'')"
  have a1: "renderCategoryMap example_templates (category_map (course_settings ?s)) =
     Inr ''<e g1>General</e><c Week 1><e w1>Lecture</e></c><e h1*>Help</e>''"
    by code_simp
  have b1: "renderCategoryMap example_templates (category_map (course_settings example_state)) =
     Inr ''<e g1>General</e><c Week 1><e w1>Lecture</e></c><e h1*>Help</e>''"
    by code_simp
  have a2: "?s1 = ?s\<lparr>page := setHtml example_browser (page ?s) (el ?s)
      (topicTemplate example_templates (course_settings ?s)
         ''<e g1>General</e><c Week 1><e w1>Lecture</e></c><e h1*>Help</e>'')\<rparr>"
    by (simp add: example_state_def example_browser_def example_templates_def
        example_rendered_page_def)
  have b2: "?t1 = example_state\<lparr>page := setHtml example_browser (page example_state)
      (el example_state)
      (topicTemplate example_templates (course_settings example_state)
         ''<e g1>General</e><c Week 1><e w1>Lecture</e></c><e h1*>Help</e>'')\<rparr>"
    by (simp add: example_state_def example_browser_def example_templates_def
        example_rendered_page_def)
  have sel: "parseSelector example_browser (id_selector (JString ''w1'')) = Some ?test"
    by (simp add: example_browser_def example_parseSelector_def id_selector_def Let_def)
  then have a3: "truthy (currentTopicId ?s) \<Longrightarrow>
      parseSelector example_browser (id_selector (currentTopicId ?s)) = Some ?test"
    by simp
  have stored: "truthy (currentTopicId ?s)" by simp
  have none: "\<not> truthy (currentTopicId example_state)" by (simp add: example_state_def)
  then have b3: "truthy (currentTopicId example_state) \<Longrightarrow>
      parseSelector example_browser (id_selector (currentTopicId example_state)) = Some ?test"
    by simp
  have options: "jq_find (Tag ''option'') example_rendered_page [[]] = [[0, 0], [0, 1, 0], [0, 2]]"
    by code_simp
  have matching: "jq_filter ?test example_rendered_page [[0, 0], [0, 1, 0], [0, 2]] = [[0, 1, 0]]"
    by code_simp
  have first: "jq_first [[0, 0], [0, 1, 0], [0, 2]] = [[0, 0]]"
    by (simp add: jq_first_def)
  have el: "el example_state = []" by (simp add: example_state_def)
  from render_returns_root_and_hands_options [OF a1 a2 a3]
       render_returns_root_and_hands_options [OF b1 b2 b3]
       sel stored none options matching first el b1
  show ?thesis by simp
qed

text \<open>When the engine rejects the selector, \<open>render\<close> does not return.\<close>

lemma render_selector_rejected:
  assumes "renderCategoryMap T (category_map (course_settings s)) = Inr topics_html"
    and "truthy (currentTopicId s)"
    and "parseSelector B (id_selector (currentTopicId s)) = None"
  shows "render T B s = Inl SelectorError"
  using assms
  by (simp add: render_def render_target_def getCurrentTopicId_def Let_def)

text \<open>
  The objects that \<open>render\<close> hands to \<open>setTopic\<close> are options under the view's
  element. When these have no child elements, \<open>render\<close> therefore leaves the current
  topic and the notifications as they were.
\<close>

lemma render_target_options:
  "render_target B s = Inr target \<Longrightarrow>
   set target \<subseteq> set (jq_find (Tag ''option'') (page s) [el s])"
  by (auto simp: render_target_def Let_def jq_filter_def jq_first_def
      split: if_splits option.splits dest: in_set_takeD)

lemma setTopic_page: "page (setTopic B target s) = page s"
  by (simp add: setTopic_def Let_def trigger_def)

lemma render_childless_options:
  assumes "render T B s = Inr (root, s')"
    and "options_childless (page s') (el s)"
  shows "currentTopicId s' = currentTopicId s \<and> topicText s' = topicText s \<and>
         triggered s' = triggered s"
proof -
  from assms(1) obtain topics_html target where
    target: "render_target B (s\<lparr>page := setHtml B (page s) (el s)
                  (topicTemplate T (course_settings s) topics_html)\<rparr>) = Inr target"
    and s': "s' = setTopic B target
           (s\<lparr>page := setHtml B (page s) (el s)
                  (topicTemplate T (course_settings s) topics_html)\<rparr>)"
    by (auto simp: render_def Let_def split: sum.splits)
  let ?s1 = "s\<lparr>page := setHtml B (page s) (el s)
                  (topicTemplate T (course_settings s) topics_html)\<rparr>"
  from s' have pg: "page s' = page ?s1" by (simp only: setTopic_page)
  have "setTopic B target ?s1 = ?s1"
  proof (rule setTopic_childless_target)
    fix l e
    assume "l \<in> set target" and at: "element_at (page ?s1) l = Some e"
    with render_target_options [OF target]
    have "l \<in> set (jq_find (Tag ''option'') (page ?s1) [el s])" by auto
    with assms(2) pg at show "childElements e = []"
      by (auto simp: options_childless_def list_all_iff)
  qed
  with s' show ?thesis by simp
qed

subsection \<open>Where the current topic changes\<close>

text \<open>
  C5 as first stated fails: \<open>initialize\<close> changes the current topic id, and a direct
  call of \<open>setTopic\<close> changes the cached name, with no change event handled.
\<close>

theorem topic_changes_outside_handler_counterexample:
  "currentTopicId example_state = JUndefined \<and>
   run example_templates example_browser
     (Initialize \<lparr>opt_course_settings = example_settings, topicId = JString ''w1''\<rparr>)
     example_state =
     Inr (initialize \<lparr>opt_course_settings = example_settings, topicId = JString ''w1''\<rparr>
            example_state) \<and>
   currentTopicId
     (initialize \<lparr>opt_course_settings = example_settings, topicId = JString ''w1''\<rparr>
        example_state) = JString ''w1'' \<and>
   topicText example_state = JUndefined \<and>
   run example_templates example_browser (SetTopic [[0]]) example_state =
     Inr (setTopic example_browser [[0]] example_state) \<and>
   topicText (setTopic example_browser [[0]] example_state) = JString ''General''"
proof -
  have "topicText (setTopic example_browser [[0]] example_state) = JString ''General''"
    by code_simp
  then show ?thesis by (simp add: example_state_def initialize_def)
qed

text \<open>
  C5, amended. What each operation that returns does to the current topic id and the
  cached name: \<open>initialize\<close> assigns the supplied initial topic id and leaves the
  name; \<open>setTopic\<close>, called by the change handler or directly, sets both to the id
  and the full name of the selected option under its target when that id is truthy, and
  leaves both otherwise; \<open>render\<close> leaves both when the options under the view's
  element have no child elements; \<open>renderCategoryMap\<close>, \<open>getCurrentTopicId\<close> and
  \<open>getFullTopicName\<close> leave both.
\<close>

theorem topic_changes_only_in_setTopic:
  assumes "run T B op s = Inr s'"
  shows "case op of
           Initialize options \<Rightarrow>
             currentTopicId s' = topicId options \<and> topicText s' = topicText s
         | SetTopic target \<Rightarrow>
             (if truthy (discussion_id B s (selected_option s target))
              then currentTopicId s' = discussion_id B s (selected_option s target) \<and>
                   topicText s' = getFullTopicName s (Some (selected_option s target))
              else currentTopicId s' = currentTopicId s \<and> topicText s' = topicText s)
         | HandleTopicEvent target \<Rightarrow>
             (if truthy (discussion_id B s (selected_option s [target]))
              then currentTopicId s' = discussion_id B s (selected_option s [target]) \<and>
                   topicText s' = getFullTopicName s (Some (selected_option s [target]))
              else currentTopicId s' = currentTopicId s \<and> topicText s' = topicText s)
         | Render \<Rightarrow>
             (options_childless (page s') (el s) \<longrightarrow>
                currentTopicId s' = currentTopicId s \<and> topicText s' = topicText s)
         | _ \<Rightarrow> currentTopicId s' = currentTopicId s \<and> topicText s' = topicText s"
proof (cases op)
  case (Initialize options)
  with assms show ?thesis by (auto simp: initialize_def)
next
  case Render
  with assms obtain root where "render T B s = Inr (root, s')"
    by (auto split: sum.splits)
  from render_childless_options [OF this] Render show ?thesis by simp
next
  case (RenderCategoryMap m)
  with assms show ?thesis by (auto split: sum.splits)
next
  case (HandleTopicEvent target)
  with assms have "s' = setTopic B [target] s" by (simp add: handleTopicEvent_def)
  with HandleTopicEvent setTopic_truthy [of B s "[target]"] setTopic_falsy [of B s "[target]"]
  show ?thesis by (cases "truthy (discussion_id B s (selected_option s [target]))") simp_all
next
  case (SetTopic target)
  with assms have "s' = setTopic B target s" by simp
  with SetTopic setTopic_truthy [of B s target] setTopic_falsy [of B s target]
  show ?thesis by (cases "truthy (discussion_id B s (selected_option s target))") simp_all
next
  case GetCurrentTopicId
  with assms show ?thesis by auto
next
  case (GetFullTopicName topicElement)
  with assms show ?thesis by auto
qed

theorem topic_changes_only_in_setTopic_witness:
  "run example_templates example_browser Render
     (example_state\<lparr>currentTopicId := JString ''w1''\<rparr>) =
     Inr (example_state\<lparr>currentTopicId := JString ''w1'', page := example_rendered_page\<rparr>) \<and>
   options_childless example_rendered_page [] \<and>
   run example_templates example_browser (SetTopic [[0]]) example_state =
     Inr (setTopic example_browser [[0]] example_state) \<and>
   truthy (discussion_id example_browser example_state (selected_option example_state [[0]])) \<and>
   currentTopicId (setTopic example_browser [[0]] example_state) = JString ''g1'' \<and>
   topicText (setTopic example_browser [[0]] example_state) = JString ''General''"
proof -
  let ?s = "example_state\<lparr>currentTopicId := JString ''w1''\<rparr>"
  let ?s' = "example_state\<lparr>currentTopicId := JString ''w1'', page := example_rendered_page\<rparr>"
  have r: "run example_templates example_browser Render ?s = Inr ?s'"
    by code_simp
  have childless: "options_childless example_rendered_page []" by code_simp
  have t: "run example_templates example_browser (SetTopic [[0]]) example_state =
     Inr (setTopic example_browser [[0]] example_state)"
    by simp
  have sel: "selected_option example_state [[0]] = [[0, 0]]" by code_simp
  have ident: "discussion_id example_browser example_state [[0, 0]] = JString ''g1''"
    by code_simp
  have name: "getFullTopicName example_state (Some [[0, 0]]) = JString ''General''"
    by code_simp
  from topic_changes_only_in_setTopic [OF r] topic_changes_only_in_setTopic [OF t]
       r childless t sel ident name
  show ?thesis by simp
qed

end
